theory Spec2Isabelle
  imports Main "HOL-Library.Sublist"
begin

section \<open>convertToFlac: the cue-sheet model, the parser and the split/tag pipeline\<close>

text \<open>
  A shallow embedding of \<^verbatim>\<open>src/convertToFlac.py\<close>. A Python \<^verbatim>\<open>str\<close> is a
  \<^typ>\<open>string\<close>; \<^verbatim>\<open>None\<close> is \<^term>\<open>None\<close>; every \<^verbatim>\<open>raise\<close> is an \<open>Inl\<close>
  of the type \<open>error + 'a\<close>. The calls into the operating system and the two external
  programs are recorded as a list of events, and what the operating system answers
  (temporary names, the files the splitter left behind, the state of the destination)
  is a parameter.
\<close>

subsection \<open>Exceptions\<close>

datatype error =
    IndexError
  | ValueError
  | TypeError
  | UnboundLocalError
  | LookupError
  | IOError_fallback_failed
  | IOError_specify_fallback
  | IOError_temp_cue_empty
  | AttributeError_dest_is_file

subsection \<open>Characters and the string methods the script calls\<close>

definition LF :: char where "LF = CHR 0x0A"
definition CR :: char where "CR = CHR 0x0D"
definition TAB :: char where "TAB = CHR 0x09"

text \<open>\<^verbatim>\<open>str.isspace\<close> on the code points below 256.\<close>

definition is_space :: "char \<Rightarrow> bool" where
  "is_space c = (c \<in> set [CHR 0x09, CHR 0x0A, CHR 0x0B, CHR 0x0C, CHR 0x0D,
      CHR 0x1C, CHR 0x1D, CHR 0x1E, CHR 0x1F, CHR 0x20, CHR 0x85, CHR 0xA0])"

text \<open>The line boundaries of \<^verbatim>\<open>str.splitlines\<close> on the code points below 256.\<close>

definition is_linebreak :: "char \<Rightarrow> bool" where
  "is_linebreak c = (c \<in> set [CHR 0x0A, CHR 0x0B, CHR 0x0C, CHR 0x0D,
      CHR 0x1C, CHR 0x1D, CHR 0x1E, CHR 0x85])"

definition strip :: "string \<Rightarrow> string" where
  "strip s = rev (dropWhile is_space (rev (dropWhile is_space s)))"

definition startswith :: "string \<Rightarrow> string \<Rightarrow> bool" where
  "startswith s p = prefix p s"

text \<open>\<^verbatim>\<open>s.split(c)\<close> for a one-character separator: never the empty list.\<close>

fun split_on :: "char \<Rightarrow> string \<Rightarrow> string list" where
  "split_on c [] = [ []]"
| "split_on c (x # xs) =
     (if x = c then [] # split_on c xs
      else (x # hd (split_on c xs)) # tl (split_on c xs))"

fun str_join :: "string \<Rightarrow> string list \<Rightarrow> string" where
  "str_join j [] = []"
| "str_join j [x] = x"
| "str_join j (x # y # ys) = x @ j @ str_join j (y # ys)"

text \<open>\<^verbatim>\<open>s.replace(old, new)\<close> for a non-empty \<open>old\<close>: leftmost occurrences, not overlapping.\<close>

function str_replace :: "string \<Rightarrow> string \<Rightarrow> string \<Rightarrow> string" where
  "str_replace old new [] = []"
| "str_replace old new (c # cs) =
     (if old \<noteq> [] \<and> prefix old (c # cs)
      then new @ str_replace old new (drop (length old) (c # cs))
      else c # str_replace old new cs)"
  by pat_completeness auto
termination
  by (relation "measure (\<lambda>(old, new, s). length s)") (auto simp: Suc_le_eq)

text \<open>\<^verbatim>\<open>str.splitlines()\<close>: \<open>cur\<close> is the line read so far; CR LF is one boundary; a
  last line is kept only when it is not empty.\<close>

fun splitlines_from :: "string \<Rightarrow> string \<Rightarrow> string list" where
  "splitlines_from cur [] = (if cur = [] then [] else [cur])"
| "splitlines_from cur (c # cs) =
     (if c = CR then
        (case cs of
           [] \<Rightarrow> [cur]
         | d # ds \<Rightarrow> if d = LF then cur # splitlines_from [] ds
                    else cur # splitlines_from [] (d # ds))
      else if is_linebreak c then cur # splitlines_from [] cs
      else splitlines_from (cur @ [c]) cs)"

definition splitlines :: "string \<Rightarrow> string list" where
  "splitlines s = splitlines_from [] s"

subsection \<open>\<^verbatim>\<open>shlex.split\<close> (POSIX mode, no comments, whitespace splitting)\<close>

text \<open>
  The states of \<^verbatim>\<open>shlex.read_token\<close>: \<open>' '\<close> between tokens, \<open>'a'\<close> inside a word, a
  quote character inside quotes, and the escape state, which remembers the state to
  return to (\<^verbatim>\<open>escapedstate\<close>). \<open>tok\<close> is \<^verbatim>\<open>self.token\<close>, \<open>quoted\<close> the flag of the
  same name. End of input inside quotes or after a backslash raises \<^verbatim>\<open>ValueError\<close>;
  \<^verbatim>\<open>list(lex)\<close> reads every token, so an error anywhere fails the whole split.
\<close>

datatype lex_state = In_space | In_word | In_quote char | In_escape lex_state

definition shlex_whitespace :: "char \<Rightarrow> bool" where
  "shlex_whitespace c = (c \<in> set [CHR 0x20, CHR 0x09, CHR 0x0D, CHR 0x0A])"

definition shlex_quote :: "char \<Rightarrow> bool" where
  "shlex_quote c = (c = CHR 0x27 \<or> c = CHR 0x22)"

definition shlex_escape :: "char \<Rightarrow> bool" where
  "shlex_escape c = (c = CHR 0x5C)"

definition emit :: "string \<Rightarrow> error + string list \<Rightarrow> error + string list" where
  "emit tok r = (case r of Inl e \<Rightarrow> Inl e | Inr ts \<Rightarrow> Inr (tok # ts))"

fun shlex_run :: "lex_state \<Rightarrow> string \<Rightarrow> bool \<Rightarrow> string \<Rightarrow> error + string list" where
  "shlex_run In_space tok quoted [] = (if tok \<noteq> [] \<or> quoted then Inr [tok] else Inr [])"
| "shlex_run In_word tok quoted [] = (if tok \<noteq> [] \<or> quoted then Inr [tok] else Inr [])"
| "shlex_run (In_quote q) tok quoted [] = Inl ValueError"
| "shlex_run (In_escape st) tok quoted [] = Inl ValueError"
| "shlex_run In_space tok quoted (c # cs) =
     (if shlex_whitespace c then
        (if tok \<noteq> [] \<or> quoted then emit tok (shlex_run In_space [] False cs)
         else shlex_run In_space tok quoted cs)
      else if shlex_escape c then shlex_run (In_escape In_word) tok quoted cs
      else if shlex_quote c then shlex_run (In_quote c) tok quoted cs
      else shlex_run In_word [c] quoted cs)"
| "shlex_run (In_quote q) tok quoted (c # cs) =
     (if c = q then shlex_run In_word tok True cs
      else if shlex_escape c \<and> q = CHR 0x22 then shlex_run (In_escape (In_quote q)) tok True cs
      else shlex_run (In_quote q) (tok @ [c]) True cs)"
| "shlex_run (In_escape st) tok quoted (c # cs) =
     (case st of
        In_quote q \<Rightarrow>
          (if \<not> shlex_escape c \<and> c \<noteq> q then shlex_run st (tok @ [CHR 0x5C] @ [c]) quoted cs
           else shlex_run st (tok @ [c]) quoted cs)
      | _ \<Rightarrow> shlex_run st (tok @ [c]) quoted cs)"
| "shlex_run In_word tok quoted (c # cs) =
     (if shlex_whitespace c then
        (if tok \<noteq> [] \<or> quoted then emit tok (shlex_run In_space [] False cs)
         else shlex_run In_space tok quoted cs)
      else if shlex_quote c then shlex_run (In_quote c) tok quoted cs
      else if shlex_escape c then shlex_run (In_escape In_word) tok quoted cs
      else shlex_run In_word (tok @ [c]) quoted cs)"

definition shlex_split :: "string \<Rightarrow> error + string list" where
  "shlex_split s = shlex_run In_space [] False s"

text \<open>\<^verbatim>\<open>shlex.split(s)[i]\<close>: the split may raise, and so may the index.\<close>

definition shlex_token :: "nat \<Rightarrow> string \<Rightarrow> error + string" where
  "shlex_token i s =
     (case shlex_split s of
        Inl e \<Rightarrow> Inl e
      | Inr ts \<Rightarrow> if i < length ts then Inr (ts ! i) else Inl IndexError)"

subsection \<open>The regular expressions\<close>

text \<open>
  \<^verbatim>\<open>(.*)$\<close> at the end of a pattern: \<open>.\<close> matches everything but LF, and \<open>$\<close> matches at
  the end of the text or before one last LF. The group is the text up to the first LF.
\<close>

definition re_rest :: "string \<Rightarrow> string option" where
  "re_rest s =
     (let g = takeWhile (\<lambda>c. c \<noteq> LF) s; r = dropWhile (\<lambda>c. c \<noteq> LF) s
      in if r = [] \<or> r = [LF] then Some g else None)"

text \<open>\<^verbatim>\<open>re.match('^KW (.*)$', line)\<close>, returning group 1; \<open>kw\<close> holds the keyword and its
  space.\<close>

definition re_match_kw :: "string \<Rightarrow> string \<Rightarrow> string option" where
  "re_match_kw kw line =
     (if prefix kw line then re_rest (drop (length kw) line) else None)"

text \<open>\<^verbatim>\<open>re.match('([ \t]+)?TITLE (.*)$', line)\<close>, returning group 2. The optional group
  takes every leading blank or tab: after fewer of them the next character is not \<open>T\<close>.\<close>

definition re_match_track_title :: "string \<Rightarrow> string option" where
  "re_match_track_title line =
     re_match_kw ''TITLE '' (dropWhile (\<lambda>c. c = CHR 0x20 \<or> c = TAB) line)"

subsection \<open>CueDisc and CueAlbum\<close>

record CueDisc =
  titles_tags :: "string list"
  cue_context :: "string list"
  music_file_name :: "string option"

record CueAlbum =
  album_tag :: "string option"
  artist_tag :: "string option"
  year_tag :: "string option"
  cue_disks :: "CueDisc list"
  header :: "string list"

definition CueDisc_init :: CueDisc where
  "CueDisc_init = \<lparr>titles_tags = [], cue_context = [], music_file_name = None\<rparr>"

definition CueAlbum_init :: CueAlbum where
  "CueAlbum_init =
     \<lparr>album_tag = None, artist_tag = None, year_tag = None, cue_disks = [], header = []\<rparr>"

definition populate_album_tag :: "string \<Rightarrow> CueAlbum \<Rightarrow> error + CueAlbum" where
  "populate_album_tag line a =
     (case re_match_kw ''TITLE '' line of
        None \<Rightarrow> Inr a
      | Some g \<Rightarrow>
          (case shlex_token 0 g of
             Inl e \<Rightarrow> Inl e
           | Inr t \<Rightarrow> Inr (a\<lparr>album_tag := Some t\<rparr>)))"

definition populate_artist_tag :: "string \<Rightarrow> CueAlbum \<Rightarrow> error + CueAlbum" where
  "populate_artist_tag line a =
     (case re_match_kw ''PERFORMER '' line of
        None \<Rightarrow> Inr a
      | Some g \<Rightarrow>
          (case shlex_token 0 g of
             Inl e \<Rightarrow> Inl e
           | Inr t \<Rightarrow> Inr (a\<lparr>artist_tag := Some t\<rparr>)))"

definition populate_year_tag :: "string \<Rightarrow> CueAlbum \<Rightarrow> error + CueAlbum" where
  "populate_year_tag line a =
     (case re_match_kw ''REM DATE '' line of
        None \<Rightarrow> Inr a
      | Some g \<Rightarrow>
          (case shlex_token 0 g of
             Inl e \<Rightarrow> Inl e
           | Inr t \<Rightarrow> Inr (a\<lparr>year_tag := Some t\<rparr>)))"

definition append_line_to_header :: "string \<Rightarrow> CueAlbum \<Rightarrow> error + CueAlbum" where
  "append_line_to_header line a =
     (case populate_album_tag line (a\<lparr>header := header a @ [line]\<rparr>) of
        Inl e \<Rightarrow> Inl e
      | Inr a1 \<Rightarrow>
          (case populate_artist_tag line a1 of
             Inl e \<Rightarrow> Inl e
           | Inr a2 \<Rightarrow> populate_year_tag line a2))"

definition populate_title_tag :: "string \<Rightarrow> CueDisc \<Rightarrow> error + CueDisc" where
  "populate_title_tag line d =
     (case re_match_track_title line of
        None \<Rightarrow> Inr d
      | Some g \<Rightarrow>
          (case shlex_token 0 g of
             Inl e \<Rightarrow> Inl e
           | Inr t \<Rightarrow> Inr (d\<lparr>titles_tags := titles_tags d @ [t]\<rparr>)))"

definition append_to_cue_context :: "string \<Rightarrow> CueDisc \<Rightarrow> error + CueDisc" where
  "append_to_cue_context line d =
     populate_title_tag line (d\<lparr>cue_context := cue_context d @ [line]\<rparr>)"

subsection \<open>CueConverter.fix\_time\_format and parse\_cue\_file\<close>

text \<open>\<open>sep\<close> is \<^verbatim>\<open>os.linesep\<close>, a constant of the platform.\<close>

definition fix_time_format :: "string \<Rightarrow> string \<Rightarrow> string" where
  "fix_time_format sep line =
     (if startswith (strip line) ''INDEX '' then
        (let line_as_list = split_on (CHR '':'') (str_replace sep [] line)
         in str_join '':''
              (line_as_list[length line_as_list - 1 := last line_as_list @ ''0'' @ sep]))
      else line)"

text \<open>One round of the loop of \<^verbatim>\<open>parse_cue_file\<close>.\<close>

definition parse_line :: "string \<Rightarrow> string \<Rightarrow> CueAlbum \<Rightarrow> error + CueAlbum" where
  "parse_line sep line a =
     (case (if startswith line ''FILE '' then
              (case shlex_token 1 line of
                 Inl e \<Rightarrow> Inl e
               | Inr name \<Rightarrow>
                   Inr (a\<lparr>cue_disks := cue_disks a @ [CueDisc_init\<lparr>music_file_name := Some name\<rparr>]\<rparr>))
            else Inr a) of
        Inl e \<Rightarrow> Inl e
      | Inr a1 \<Rightarrow>
          if length (cue_disks a1) > 0 then
            (case append_to_cue_context (fix_time_format sep line) (last (cue_disks a1)) of
               Inl e \<Rightarrow> Inl e
             | Inr d \<Rightarrow> Inr (a1\<lparr>cue_disks := butlast (cue_disks a1) @ [d]\<rparr>))
          else append_line_to_header line a1)"

fun parse_lines :: "string \<Rightarrow> CueAlbum \<Rightarrow> string list \<Rightarrow> error + CueAlbum" where
  "parse_lines sep a [] = Inr a"
| "parse_lines sep a (l # ls) =
     (case parse_line sep l a of
        Inl e \<Rightarrow> Inl e
      | Inr a1 \<Rightarrow> parse_lines sep a1 ls)"

subsection \<open>The command line and FileUtils.readTextFile\<close>

record args =
  debug :: bool
  fallback_cue_encoding :: "string option"

text \<open>
  What \<^verbatim>\<open>codecs.open(text_file, "r", encoding=e)\<close> followed by \<^verbatim>\<open>f.read()\<close> gives for
  the sheet at hand, as a function of the encoding name \<open>e\<close>: the decoded text, a
  \<^verbatim>\<open>UnicodeDecodeError\<close> from the read, or a \<^verbatim>\<open>LookupError\<close> from the open (which is
  outside the \<^verbatim>\<open>try\<close>).
\<close>

datatype read_result = Decoded string | UnicodeDecodeError | UnknownEncoding

text \<open>
  \<open>opened\<close> lists the encodings the file has been opened with so far; the function
  returns it with the result. The retry is a recursive call, and nothing in the
  source bounds the recursion: a call that never returns is \<^term>\<open>None\<close> (the
  interpreter would end it with its own recursion limit).
\<close>

partial_function (option) readTextFile ::
  "args \<Rightarrow> (string \<Rightarrow> read_result) \<Rightarrow> string list \<Rightarrow> string
     \<Rightarrow> (string list \<times> (error + string list)) option" where
  "readTextFile ar dec opened encoding =
     (case dec encoding of
        UnknownEncoding \<Rightarrow> Some (opened @ [encoding], Inl LookupError)
      | Decoded txt \<Rightarrow> Some (opened @ [encoding], Inr (splitlines txt))
      | UnicodeDecodeError \<Rightarrow>
          if encoding \<noteq> ''utf-8'' then Some (opened @ [encoding], Inl IOError_fallback_failed)
          else if fallback_cue_encoding ar = None \<or> fallback_cue_encoding ar = Some []
            then Some (opened @ [encoding], Inl IOError_specify_fallback)
          else readTextFile ar dec (opened @ [encoding]) (the (fallback_cue_encoding ar)))"

text \<open>\<^verbatim>\<open>parse_cue_file\<close>: read the lines with the default encoding, then run the loop.\<close>

definition parse_cue_file ::
  "args \<Rightarrow> string \<Rightarrow> (string \<Rightarrow> read_result) \<Rightarrow> (error + CueAlbum) option" where
  "parse_cue_file ar sep dec =
     (case readTextFile ar dec [] ''utf-8'' of
        None \<Rightarrow> None
      | Some (opened, Inl e) \<Rightarrow> Some (Inl e)
      | Some (opened, Inr ls) \<Rightarrow> Some (parse_lines sep CueAlbum_init ls))"

subsection \<open>Paths, globbing and the events of a run\<close>

text \<open>\<^verbatim>\<open>os.path.join(a, b)\<close> of \<^verbatim>\<open>posixpath\<close>.\<close>

definition path_join :: "string \<Rightarrow> string \<Rightarrow> string" where
  "path_join a b =
     (if startswith b ''/'' then b
      else if a = [] \<or> suffix ''/'' a then a @ b
      else a @ ''/'' @ b)"

text \<open>The names \<^verbatim>\<open>glob\<close> matches with \<^verbatim>\<open>*.*\<close> and with \<^verbatim>\<open>*pregap.flac\<close>: a leading
  star never matches a name that starts with a dot.\<close>

definition glob_any_dot_any :: "string \<Rightarrow> bool" where
  "glob_any_dot_any name = (\<not> startswith name ''.'' \<and> CHR ''.'' \<in> set name)"

definition glob_pregap :: "string \<Rightarrow> bool" where
  "glob_pregap name = (\<not> startswith name ''.'' \<and> suffix ''pregap.flac'' name)"

text \<open>\<^verbatim>\<open>str(n)\<close> for a natural number.\<close>

function str_nat :: "nat \<Rightarrow> string" where
  "str_nat n =
     (if n < 10 then [''0123456789'' ! n]
      else str_nat (n div 10) @ [''0123456789'' ! (n mod 10)])"
  by pat_completeness auto
termination
  by (relation "measure id") auto

declare str_nat.simps [simp del]

text \<open>
  What a run does to the world, in order: a file written and closed, a directory made,
  an external program run with its argument list, an error logged and swallowed, a
  file or a tree removed, a file moved.
\<close>

datatype event =
    Write_file string string
  | Mkdtemp string
  | Exec "string list"
  | Log_error
  | Remove string
  | Rmtree string
  | Makedirs string
  | Move string string

datatype dest_kind = Dest_absent | Dest_dir | Dest_file

text \<open>
  What the operating system and the splitter answer while one disc is processed: the
  name of the temporary sheet, the name of the temporary directory, whether the
  splitter exited with status 0, the names and modification times of the files in the
  temporary directory when the splitter has returned (in the order the directory
  lists them), and what is at the destination path. Modification times are compared
  only, so they are natural numbers here. Apart from these answers every call into the
  operating system is taken to succeed: the exceptions of a run are those the source
  raises itself and those of its own subscripts and unset variables.
\<close>

record disc_env =
  temp_cue_name :: string
  temp_dir_name :: string
  split_succeeds :: bool
  split_listing :: "(string \<times> nat) list"
  dest_state :: dest_kind

subsection \<open>CueToFlacTagUtils\<close>

definition add_if_present :: "string list \<Rightarrow> string \<Rightarrow> string option \<Rightarrow> string list" where
  "add_if_present cmd param tag =
     (case tag of
        None \<Rightarrow> cmd
      | Some t \<Rightarrow> if t = [] then cmd else cmd @ [str_join ''='' [param, t]])"

text \<open>\<^verbatim>\<open>tag_single_file\<close> returns the command it runs; both subscripts may raise, and
  then nothing is run.\<close>

definition tag_single_file :: "string \<Rightarrow> CueAlbum \<Rightarrow> nat \<Rightarrow> nat \<Rightarrow> error + string list" where
  "tag_single_file flac_file cue_album disc_id track_id =
     (let cmd = [''metaflac'', ''--preserve-modtime''];
          cmd = add_if_present cmd ''--set-tag=ARTIST'' (artist_tag cue_album);
          cmd = add_if_present cmd ''--set-tag=ALBUM'' (album_tag cue_album)
      in if \<not> disc_id < length (cue_disks cue_album) then Inl IndexError
         else if \<not> track_id < length (titles_tags (cue_disks cue_album ! disc_id)) then Inl IndexError
         else
           (let cmd = add_if_present cmd ''--set-tag=TITLE''
                        (Some (titles_tags (cue_disks cue_album ! disc_id) ! track_id));
                cmd = add_if_present cmd ''--set-tag=DATE'' (year_tag cue_album)
            in Inr (cmd @ [flac_file])))"

fun tag_files_loop ::
  "CueAlbum \<Rightarrow> nat \<Rightarrow> (nat \<times> string) list \<Rightarrow> event list \<times> (error + unit)" where
  "tag_files_loop cue_album current_disc_id [] = ([], Inr ())"
| "tag_files_loop cue_album current_disc_id ((track_id, file) # rest) =
     (case tag_single_file file cue_album current_disc_id track_id of
        Inl e \<Rightarrow> ([], Inl e)
      | Inr cmd \<Rightarrow>
          (case tag_files_loop cue_album current_disc_id rest of
             (evs, r) \<Rightarrow> (Exec cmd # evs, r)))"

text \<open>The files of the directory that match \<^verbatim>\<open>*.*\<close>, as paths, sorted by modification
  time (the sort of Python is stable, and so is \<^const>\<open>sort_key\<close>).\<close>

definition tag_order :: "string \<Rightarrow> (string \<times> nat) list \<Rightarrow> string list" where
  "tag_order files_dir listing =
     map (\<lambda>(name, mtime). path_join files_dir name)
       (sort_key snd (filter (\<lambda>(name, mtime). glob_any_dot_any name) listing))"

definition tag_files ::
  "string \<Rightarrow> (string \<times> nat) list \<Rightarrow> CueAlbum \<Rightarrow> nat \<Rightarrow> event list \<times> (error + unit)" where
  "tag_files files_dir listing cue_album current_disc_id =
     tag_files_loop cue_album current_disc_id (enumerate 0 (tag_order files_dir listing))"

subsection \<open>CueConverter\<close>

record CueConverter =
  cue_file :: string
  src_dir :: string
  dest_dir :: string
  cue_album :: CueAlbum

definition FIRST_TRACK_START_NUMBER :: nat where
  "FIRST_TRACK_START_NUMBER = 1"

text \<open>\<^verbatim>\<open>create_temp_cue_file\<close>: every line is written with \<^verbatim>\<open>os.linesep\<close> after it, the
  file is closed, and an empty file raises; the file was made with \<^verbatim>\<open>delete=False\<close>.\<close>

definition temp_cue_text :: "string \<Rightarrow> string list \<Rightarrow> string" where
  "temp_cue_text sep cue_content_array = concat (map (\<lambda>line. line @ sep) cue_content_array)"

definition create_temp_cue_file ::
  "string \<Rightarrow> string \<Rightarrow> string list \<Rightarrow> event list \<times> (error + string)" where
  "create_temp_cue_file sep name cue_content_array =
     (let content = temp_cue_text sep cue_content_array
      in ([Write_file name content],
          if content = [] then Inl IOError_temp_cue_empty else Inr name))"

definition split_cmd :: "string \<Rightarrow> string \<Rightarrow> string \<Rightarrow> nat \<Rightarrow> string list" where
  "split_cmd cue_file_path music_file_path out_dir first_track_num =
     [''shnsplit'', ''-f'', cue_file_path,
      ''-t'', ''%n. %t'',
      ''-c'', str_nat first_track_num,
      ''-d'', out_dir,
      ''-o'', ''flac'',
      ''-O'', ''always'',
      music_file_path]"

text \<open>A non-zero exit of the splitter is caught and logged.\<close>

definition split_file_by_cue_sheet ::
  "bool \<Rightarrow> string \<Rightarrow> string \<Rightarrow> string \<Rightarrow> nat \<Rightarrow> event list" where
  "split_file_by_cue_sheet succeeds cue_file_path music_file_path out_dir first_track_num =
     Exec (split_cmd cue_file_path music_file_path out_dir first_track_num)
       # (if succeeds then [] else [Log_error])"

definition remove_pregap_files :: "string \<Rightarrow> (string \<times> nat) list \<Rightarrow> event list" where
  "remove_pregap_files temp_dir listing =
     map (\<lambda>(name, mtime). Remove (path_join temp_dir name))
       (filter (\<lambda>(name, mtime). glob_pregap name) listing)"

definition move_to_newdir ::
  "string \<Rightarrow> string list \<Rightarrow> string \<Rightarrow> dest_kind \<Rightarrow> event list \<times> (error + unit)" where
  "move_to_newdir src names dest dk =
     (if dk = Dest_file then ([], Inl AttributeError_dest_is_file)
      else ((if dk = Dest_absent then [Makedirs dest] else [])
              @ map (\<lambda>file. Move (path_join src file) (path_join dest file)) names,
            Inr ()))"

text \<open>
  The body of the \<^verbatim>\<open>try\<close> of \<^verbatim>\<open>convert\<close> for one disc. It returns the events, the value
  of the variable \<^verbatim>\<open>temp_dir\<close> when the body is left (the variable lives across the
  rounds of the loop, \<open>temp_dir_var\<close> is its value on entry), and either the exception
  or the new \<^verbatim>\<open>first_track_num\<close>.
\<close>

definition convert_try ::
  "CueConverter \<Rightarrow> disc_env \<Rightarrow> string \<Rightarrow> nat \<Rightarrow> string option \<Rightarrow> nat \<Rightarrow> CueDisc
     \<Rightarrow> event list \<times> string option \<times> (error + nat)" where
  "convert_try conv env temp_cue first_track_num temp_dir_var cue_disc_id cue_disc =
     (case music_file_name cue_disc of
        None \<Rightarrow> ([], temp_dir_var, Inl TypeError)
      | Some name \<Rightarrow>
          (let music_file_path = path_join (src_dir conv) name;
               temp_dir = temp_dir_name env;
               ev1 = Mkdtemp temp_dir
                       # split_file_by_cue_sheet (split_succeeds env) temp_cue music_file_path
                           temp_dir first_track_num;
               ev2 = remove_pregap_files temp_dir (split_listing env);
               listing = filter (\<lambda>(name, mtime). \<not> glob_pregap name) (split_listing env)
           in case tag_files temp_dir listing (cue_album conv) cue_disc_id of
                (ev3, Inl e) \<Rightarrow> (ev1 @ ev2 @ ev3, Some temp_dir, Inl e)
              | (ev3, Inr u) \<Rightarrow>
                  (case move_to_newdir temp_dir (map fst listing) (dest_dir conv) (dest_state env) of
                     (ev4, Inl e) \<Rightarrow> (ev1 @ ev2 @ ev3 @ ev4, Some temp_dir, Inl e)
                   | (ev4, Inr u) \<Rightarrow>
                       (ev1 @ ev2 @ ev3 @ ev4, Some temp_dir,
                        Inr (first_track_num + length (titles_tags cue_disc))))))"

text \<open>The \<^verbatim>\<open>finally\<close> block: an exception raised in it replaces the one of the body.\<close>

definition convert_finally ::
  "args \<Rightarrow> string \<Rightarrow> string option \<Rightarrow> event list \<times> error option" where
  "convert_finally ar temp_cue temp_dir_var =
     (if debug ar then ([Remove temp_cue], None)
      else (case temp_dir_var of
              None \<Rightarrow> ([Remove temp_cue], Some UnboundLocalError)
            | Some temp_dir \<Rightarrow> ([Remove temp_cue, Rmtree temp_dir], None)))"

text \<open>One round of the loop of \<^verbatim>\<open>convert\<close>: the temporary sheet is made before the
  \<^verbatim>\<open>try\<close> is entered.\<close>

definition convert_disc ::
  "args \<Rightarrow> string \<Rightarrow> CueConverter \<Rightarrow> disc_env \<Rightarrow> nat \<Rightarrow> string option \<Rightarrow> nat \<Rightarrow> CueDisc
     \<Rightarrow> event list \<times> (error + nat \<times> string option)" where
  "convert_disc ar sep conv env first_track_num temp_dir_var cue_disc_id cue_disc =
     (case create_temp_cue_file sep (temp_cue_name env)
             (header (cue_album conv) @ cue_context cue_disc) of
        (ev0, Inl e) \<Rightarrow> (ev0, Inl e)
      | (ev0, Inr temp_cue) \<Rightarrow>
          (case convert_try conv env temp_cue first_track_num temp_dir_var cue_disc_id cue_disc of
             (ev, temp_dir_var', r) \<Rightarrow>
               (case convert_finally ar temp_cue temp_dir_var' of
                  (evf, Some e) \<Rightarrow> (ev0 @ ev @ evf, Inl e)
                | (evf, None) \<Rightarrow>
                    (case r of
                       Inl e \<Rightarrow> (ev0 @ ev @ evf, Inl e)
                     | Inr n \<Rightarrow> (ev0 @ ev @ evf, Inr (n, temp_dir_var'))))))"

fun convert_loop ::
  "args \<Rightarrow> string \<Rightarrow> CueConverter \<Rightarrow> (nat \<Rightarrow> disc_env) \<Rightarrow> nat \<Rightarrow> string option
     \<Rightarrow> (nat \<times> CueDisc) list \<Rightarrow> event list \<times> (error + unit)" where
  "convert_loop ar sep conv envs first_track_num temp_dir_var [] = ([], Inr ())"
| "convert_loop ar sep conv envs first_track_num temp_dir_var ((cue_disc_id, cue_disc) # rest) =
     (case convert_disc ar sep conv (envs cue_disc_id) first_track_num temp_dir_var
             cue_disc_id cue_disc of
        (ev, Inl e) \<Rightarrow> (ev, Inl e)
      | (ev, Inr (n, temp_dir_var')) \<Rightarrow>
          (case convert_loop ar sep conv envs n temp_dir_var' rest of
             (evs, r) \<Rightarrow> (ev @ evs, r)))"

definition convert ::
  "args \<Rightarrow> string \<Rightarrow> (nat \<Rightarrow> disc_env) \<Rightarrow> CueConverter \<Rightarrow> event list \<times> (error + unit)" where
  "convert ar sep envs conv =
     convert_loop ar sep conv envs FIRST_TRACK_START_NUMBER None
       (enumerate 0 (cue_disks (cue_album conv)))"

subsection \<open>Notions used to state the properties\<close>

text \<open>The lines of a sheet before its first FILE line.\<close>

definition header_lines :: "string list \<Rightarrow> string list" where
  "header_lines ls = takeWhile (\<lambda>l. \<not> startswith l ''FILE '') ls"

text \<open>The value a line carries for the keyword \<open>kw\<close>: the first token after it.\<close>

definition tag_value :: "string \<Rightarrow> string \<Rightarrow> string option" where
  "tag_value kw line =
     (case re_match_kw kw line of
        None \<Rightarrow> None
      | Some g \<Rightarrow> (case shlex_token 0 g of Inl e \<Rightarrow> None | Inr t \<Rightarrow> Some t))"

text \<open>The value of the last line that matches the keyword, if any line does.\<close>

definition last_match_tag :: "string \<Rightarrow> string list \<Rightarrow> string option" where
  "last_match_tag kw ls =
     (case filter (\<lambda>l. re_match_kw kw l \<noteq> None) ls of
        [] \<Rightarrow> None
      | m # ms \<Rightarrow> tag_value kw (last (m # ms)))"

text \<open>What one header line does to a tag: a matching line sets it, any other keeps it.\<close>

definition tag_after :: "string \<Rightarrow> string \<Rightarrow> string option \<Rightarrow> string option" where
  "tag_after kw line old = (if re_match_kw kw line \<noteq> None then tag_value kw line else old)"

text \<open>The argument the tag writer gets for one tag: none when the value is absent or
  empty.\<close>

definition tag_option :: "string \<Rightarrow> string option \<Rightarrow> string list" where
  "tag_option name v =
     (case v of
        None \<Rightarrow> []
      | Some t \<Rightarrow> if t = [] then [] else [''--set-tag='' @ name @ ''='' @ t])"

definition expected_tag_cmd :: "CueAlbum \<Rightarrow> string \<Rightarrow> string \<Rightarrow> string list" where
  "expected_tag_cmd a title file =
     [''metaflac'', ''--preserve-modtime'']
       @ tag_option ''ARTIST'' (artist_tag a)
       @ tag_option ''ALBUM'' (album_tag a)
       @ tag_option ''TITLE'' (Some title)
       @ tag_option ''DATE'' (year_tag a)
       @ [file]"







subsection \<open>Example inputs\<close>

definition example_args :: args where
  "example_args = \<lparr>debug = False, fallback_cue_encoding = None\<rparr>"

definition example_env :: "(string \<times> nat) list \<Rightarrow> dest_kind \<Rightarrow> disc_env" where
  "example_env listing dk =
     \<lparr>temp_cue_name = ''/tmp/tmpa.cue'', temp_dir_name = ''/music/cueconvert_a'',
      split_succeeds = True, split_listing = listing, dest_state = dk\<rparr>"

definition example_conv :: "CueAlbum \<Rightarrow> CueConverter" where
  "example_conv a =
     \<lparr>cue_file = ''/music/a.cue'', src_dir = ''/music'', dest_dir = ''/music/flac'', cue_album = a\<rparr>"

text \<open>A sheet with two discs of five and seven tracks, as the parser returns it, and
  what the splitter leaves for each disc (a pregap file for the first).\<close>

definition example_album :: CueAlbum where
  "example_album =
     \<lparr>album_tag = Some ''B'', artist_tag = Some ''A'', year_tag = None,
      cue_disks =
        [\<lparr>titles_tags = [''t1'', ''t2'', ''t3'', ''t4'', ''t5''],
          cue_context = [''FILE \"one.wav\" WAVE'',
            ''    TITLE \"t1\"'', ''    INDEX 01 00:00:000'' @ [LF],
            ''    TITLE \"t2\"'', ''    TITLE \"t3\"'', ''    TITLE \"t4\"'', ''    TITLE \"t5\"''],
          music_file_name = Some ''one.wav''\<rparr>,
         \<lparr>titles_tags = [''u1'', ''u2'', ''u3'', ''u4'', ''u5'', ''u6'', ''u7''],
          cue_context = [''FILE \"two.wav\" WAVE'',
            ''    TITLE \"u1\"'', ''    TITLE \"u2\"'', ''    TITLE \"u3\"'', ''    TITLE \"u4\"'',
            ''    TITLE \"u5\"'', ''    TITLE \"u6\"'', ''    TITLE \"u7\"''],
          music_file_name = Some ''two.wav''\<rparr>],
      header = [''PERFORMER \"A\"'', ''TITLE \"B\"'']\<rparr>"

definition example_envs :: "nat \<Rightarrow> disc_env" where
  "example_envs i =
     (if i = 0 then
        example_env [(''03. t3.flac'', 3), (''01. t1.flac'', 1), (''02. t2.flac'', 2),
                     (''00. pregap.flac'', 0), (''04. t4.flac'', 4), (''05. t5.flac'', 5)] Dest_absent
      else
        example_env [(''06. u1.flac'', 6), (''07. u2.flac'', 7), (''08. u3.flac'', 8),
                     (''09. u4.flac'', 9), (''10. u5.flac'', 10), (''11. u6.flac'', 11),
                     (''12. u7.flac'', 12)] Dest_dir)"

text \<open>An album without a performer line, with one disc of two tracks.\<close>

definition small_album :: CueAlbum where
  "small_album =
     \<lparr>album_tag = Some ''B'', artist_tag = None, year_tag = Some ''2001'',
      cue_disks =
        [\<lparr>titles_tags = [''One'', ''Two''],
          cue_context = [''FILE \"a.wav\" WAVE'', ''    TITLE \"One\"'', ''    TITLE \"Two\"''],
          music_file_name = Some ''a.wav''\<rparr>],
      header = [''TITLE \"B\"'', ''REM DATE 2001'']\<rparr>"

text \<open>An album whose only track has the empty title (a line \<^verbatim>\<open>TITLE ""\<close>).\<close>

definition untitled_album :: CueAlbum where
  "untitled_album =
     \<lparr>album_tag = None, artist_tag = None, year_tag = None,
      cue_disks =
        [\<lparr>titles_tags = [ []],
          cue_context = [''FILE \"a.wav\" WAVE'', ''    TITLE \"\"''],
          music_file_name = Some ''a.wav''\<rparr>],
      header = []\<rparr>"



text \<open>A sheet that no encoding decodes, and a run with the fallback encoding set to
  \<^verbatim>\<open>utf-8\<close>.\<close>

definition undecodable :: "string \<Rightarrow> read_result" where
  "undecodable encoding = UnicodeDecodeError"

definition fallback_utf8_args :: args where
  "fallback_utf8_args = \<lparr>debug = False, fallback_cue_encoding = Some ''utf-8''\<rparr>"

section \<open>Lemmas\<close>

lemma shlex_run_blank:
  "\<forall>c\<in>set ws. shlex_whitespace c \<Longrightarrow> shlex_run In_space [] False ws = Inr []"
  by (induction ws) auto

lemma shlex_token_blank:
  "\<forall>c\<in>set ws. shlex_whitespace c \<Longrightarrow> shlex_token i ws = Inl IndexError"
  by (simp add: shlex_token_def shlex_split_def shlex_run_blank)

lemma re_rest_no_LF: "LF \<notin> set s \<Longrightarrow> re_rest s = Some s"
proof -
  assume a: "LF \<notin> set s"
  then have "takeWhile (\<lambda>c. c \<noteq> LF) s = s" by (auto simp: takeWhile_eq_all_conv)
  moreover from a have "dropWhile (\<lambda>c. c \<noteq> LF) s = []" by auto
  ultimately show ?thesis by (simp add: re_rest_def Let_def)
qed

lemma re_match_kw_append: "LF \<notin> set s \<Longrightarrow> re_match_kw kw (kw @ s) = Some s"
  by (simp add: re_match_kw_def re_rest_no_LF)

lemma blank_facts:
  assumes "set ws \<subseteq> {CHR 0x20, TAB}"
  shows "LF \<notin> set ws" and "\<forall>c\<in>set ws. shlex_whitespace c" and "\<forall>c\<in>set ws. is_space c"
proof -
  have c: "c = CHR 0x20 \<or> c = CHR 0x09" if "c \<in> set ws" for c
    using assms that unfolding TAB_def by blast
  show "LF \<notin> set ws"
  proof
    assume "LF \<in> set ws"
    from c[OF this] show False by (simp add: LF_def)
  qed
  show "\<forall>c\<in>set ws. shlex_whitespace c"
  proof
    fix x assume "x \<in> set ws"
    from c[OF this] show "shlex_whitespace x" by (auto simp add: shlex_whitespace_def)
  qed
  show "\<forall>c\<in>set ws. is_space c"
  proof
    fix x assume "x \<in> set ws"
    from c[OF this] show "is_space x" by (auto simp add: is_space_def)
  qed
qed

lemma populate_album_tag_blank:
  "set ws \<subseteq> {CHR 0x20, TAB} \<Longrightarrow> line = ''TITLE '' @ ws \<Longrightarrow> populate_album_tag line a = Inl IndexError"
  using re_match_kw_append[of ws "''TITLE ''"]
  by (simp add: populate_album_tag_def blank_facts shlex_token_blank)

lemma populate_artist_tag_blank:
  "set ws \<subseteq> {CHR 0x20, TAB} \<Longrightarrow> line = ''PERFORMER '' @ ws \<Longrightarrow> populate_artist_tag line a = Inl IndexError"
  using re_match_kw_append[of ws "''PERFORMER ''"]
  by (simp add: populate_artist_tag_def blank_facts shlex_token_blank)

lemma populate_year_tag_blank:
  "set ws \<subseteq> {CHR 0x20, TAB} \<Longrightarrow> line = ''REM DATE '' @ ws \<Longrightarrow> populate_year_tag line a = Inl IndexError"
  using re_match_kw_append[of ws "''REM DATE ''"]
  by (simp add: populate_year_tag_def blank_facts shlex_token_blank)

lemma header_blank:
  assumes "set ws \<subseteq> {CHR 0x20, TAB}"
  shows "line = ''TITLE '' @ ws \<Longrightarrow> append_line_to_header line a = Inl IndexError"
    and "line = ''PERFORMER '' @ ws \<Longrightarrow> append_line_to_header line a = Inl IndexError"
    and "line = ''REM DATE '' @ ws \<Longrightarrow> append_line_to_header line a = Inl IndexError"
proof -
  show "line = ''TITLE '' @ ws \<Longrightarrow> append_line_to_header line a = Inl IndexError"
    by (simp only: append_line_to_header_def populate_album_tag_blank[OF assms] sum.case)
  have "populate_album_tag (''PERFORMER '' @ ws) b = Inr b" for b
    by (simp add: populate_album_tag_def re_match_kw_def)
  then show "line = ''PERFORMER '' @ ws \<Longrightarrow> append_line_to_header line a = Inl IndexError"
    by (simp only: append_line_to_header_def populate_artist_tag_blank[OF assms] sum.case)
  have "populate_album_tag (''REM DATE '' @ ws) b = Inr b" for b
    by (simp add: populate_album_tag_def re_match_kw_def)
  moreover have "populate_artist_tag (''REM DATE '' @ ws) b = Inr b" for b
    by (simp add: populate_artist_tag_def re_match_kw_def)
  ultimately show "line = ''REM DATE '' @ ws \<Longrightarrow> append_line_to_header line a = Inl IndexError"
    by (simp only: append_line_to_header_def populate_year_tag_blank[OF assms] sum.case)
qed

lemma track_title_blank:
  assumes "set ind \<subseteq> {CHR 0x20, TAB}" "set ws \<subseteq> {CHR 0x20, TAB}"
    and line: "line = ind @ ''TITLE '' @ ws"
  shows "append_to_cue_context line d = Inl IndexError"
proof -
  have "dropWhile (\<lambda>c. c = CHR 0x20 \<or> c = TAB) (ind @ ''TITLE '' @ ws) = ''TITLE '' @ ws"
    using assms(1) by (subst dropWhile_append2) (auto simp: TAB_def)
  then have "re_match_track_title line = Some ws"
    using re_match_kw_append[of ws "''TITLE ''"] blank_facts(1)[OF assms(2)]
    by (simp add: re_match_track_title_def line)
  then show ?thesis
    by (simp add: append_to_cue_context_def populate_title_tag_def
        shlex_token_blank blank_facts(2)[OF assms(2)])
qed

lemma strip_prefix: "prefix (strip s) (dropWhile is_space s)"
proof -
  let ?t = "dropWhile is_space s"
  have "?t = rev (takeWhile is_space (rev ?t) @ dropWhile is_space (rev ?t))" by simp
  also have "\<dots> = strip s @ rev (takeWhile is_space (rev ?t))"
    by (simp only: rev_append strip_def)
  finally show ?thesis by (metis prefixI)
qed

lemma fix_time_format_title:
  assumes "set ind \<subseteq> {CHR 0x20, TAB}" and line: "line = ind @ ''TITLE '' @ ws"
  shows "fix_time_format sep line = line"
proof -
  have "dropWhile is_space (ind @ ''TITLE '' @ ws) = ''TITLE '' @ ws"
    using blank_facts(3)[OF assms(1)] by (subst dropWhile_append2) (auto simp: is_space_def)
  with strip_prefix[of line]
  have "prefix (strip line) (''TITLE '' @ ws)" by (simp add: line)
  then have "\<not> prefix ''INDEX '' (strip line)"
    by (auto simp: prefix_def)
  then show ?thesis by (simp add: fix_time_format_def startswith_def)
qed

lemma parse_line_title_blank:
  assumes "set ind \<subseteq> {CHR 0x20, TAB}" "set ws \<subseteq> {CHR 0x20, TAB}"
    and "ind = [] \<or> cue_disks a \<noteq> []" and line: "line = ind @ ''TITLE '' @ ws"
  shows "parse_line sep line a = Inl IndexError"
proof -
  have nf: "\<not> startswith line ''FILE ''"
    using assms(1) by (cases ind) (auto simp: startswith_def TAB_def line)
  show ?thesis
  proof (cases "cue_disks a = []")
    case True
    with assms(3) have "line = ''TITLE '' @ ws" by (simp add: line)
    from header_blank(1)[OF assms(2) this] True nf show ?thesis
      by (simp add: parse_line_def)
  next
    case False
    with nf show ?thesis
      by (simp add: parse_line_def fix_time_format_title[OF assms(1) line] 
          track_title_blank[OF assms(1,2) line])
  qed
qed

lemma append_line_to_header_fields:
  assumes "append_line_to_header l a = Inr a1"
  shows "album_tag a1 = tag_after ''TITLE '' l (album_tag a)"
    and "artist_tag a1 = tag_after ''PERFORMER '' l (artist_tag a)"
    and "year_tag a1 = tag_after ''REM DATE '' l (year_tag a)"
    and "cue_disks a1 = cue_disks a"
    and "header a1 = header a @ [l]"
  using assms
  by (auto simp: append_line_to_header_def populate_album_tag_def populate_artist_tag_def
      populate_year_tag_def tag_after_def tag_value_def split: option.splits sum.splits)

lemma parse_line_header:
  assumes "cue_disks a = []" "\<not> startswith l ''FILE ''"
  shows "parse_line sep l a = append_line_to_header l a"
  using assms by (simp add: parse_line_def)

lemma parse_line_disc:
  assumes "parse_line sep l a = Inr a1" "cue_disks a \<noteq> [] \<or> startswith l ''FILE ''"
  shows "album_tag a1 = album_tag a \<and> artist_tag a1 = artist_tag a \<and> year_tag a1 = year_tag a
         \<and> header a1 = header a \<and> cue_disks a1 \<noteq> []"
  using assms
  by (auto simp: parse_line_def split: if_splits sum.splits)

lemma parse_lines_disc:
  "parse_lines sep a ls = Inr a1 \<Longrightarrow> cue_disks a \<noteq> [] \<Longrightarrow>
     album_tag a1 = album_tag a \<and> artist_tag a1 = artist_tag a \<and> year_tag a1 = year_tag a
       \<and> header a1 = header a \<and> cue_disks a1 \<noteq> []"
proof (induction ls arbitrary: a)
  case Nil
  then show ?case by simp
next
  case (Cons l ls)
  from Cons.prems(1) obtain a2 where s: "parse_line sep l a = Inr a2"
    and r: "parse_lines sep a2 ls = Inr a1"
    by (auto split: sum.splits)
  from parse_line_disc[OF s] Cons.prems(2) Cons.IH[OF r] show ?case by simp
qed

text \<open>Folding \<open>tag_after\<close> over the header gives the last match.\<close>

lemma last_match_tag_Cons:
  "last_match_tag kw (l # ls) =
     (if filter (\<lambda>l. re_match_kw kw l \<noteq> None) ls = [] then tag_after kw l None
      else last_match_tag kw ls)"
  by (auto simp: last_match_tag_def tag_after_def tag_value_def split: list.splits option.splits)

lemma parse_lines_header_tags:
  "parse_lines sep a ls = Inr a1 \<Longrightarrow> cue_disks a = [] \<Longrightarrow>
     album_tag a1 = (if filter (\<lambda>l. re_match_kw ''TITLE '' l \<noteq> None) (header_lines ls) = []
                     then album_tag a else last_match_tag ''TITLE '' (header_lines ls))
   \<and> artist_tag a1 = (if filter (\<lambda>l. re_match_kw ''PERFORMER '' l \<noteq> None) (header_lines ls) = []
                     then artist_tag a else last_match_tag ''PERFORMER '' (header_lines ls))
   \<and> year_tag a1 = (if filter (\<lambda>l. re_match_kw ''REM DATE '' l \<noteq> None) (header_lines ls) = []
                     then year_tag a else last_match_tag ''REM DATE '' (header_lines ls))
   \<and> header a1 = header a @ header_lines ls"
proof (induction ls arbitrary: a)
  case Nil
  then show ?case by (simp add: header_lines_def)
next
  case (Cons l ls)
  from Cons.prems(1) obtain a2 where s: "parse_line sep l a = Inr a2"
    and r: "parse_lines sep a2 ls = Inr a1"
    by (auto split: sum.splits)
  show ?case
  proof (cases "startswith l ''FILE ''")
    case True
    from parse_line_disc[OF s] True have d: "cue_disks a2 \<noteq> []" and
      t: "album_tag a2 = album_tag a" "artist_tag a2 = artist_tag a" "year_tag a2 = year_tag a"
         "header a2 = header a" by simp_all
    from parse_lines_disc[OF r d] t True show ?thesis by (simp add: header_lines_def)
  next
    case False
    with s Cons.prems(2) have h: "append_line_to_header l a = Inr a2"
      by (simp add: parse_line_header)
    note f = append_line_to_header_fields[OF h]
    from f(4) Cons.prems(2) have d: "cue_disks a2 = []" by simp
    have hl: "header_lines (l # ls) = l # header_lines ls"
      using False by (simp add: header_lines_def)
    from Cons.IH[OF r d] f show ?thesis
      unfolding hl last_match_tag_Cons by (simp add: tag_after_def last_match_tag_def)
  qed
qed

lemma last_match_none:
  "filter (\<lambda>l. re_match_kw kw l \<noteq> None) ls = [] \<Longrightarrow> last_match_tag kw ls = None"
  by (simp add: last_match_tag_def)

lemma str_replace_absent:
  "old \<noteq> [] \<Longrightarrow> hd old \<notin> set s \<Longrightarrow> str_replace old new s = s"
proof (induction s)
  case Nil
  then show ?case by simp
next
  case (Cons c cs)
  from Cons.prems have "\<not> prefix old (c # cs)"
    by (cases old) auto
  with Cons show ?case by simp
qed

lemma split_on_nonempty: "split_on c s \<noteq> []"
  by (induction s) auto

lemma str_join_Cons: "zs \<noteq> [] \<Longrightarrow> str_join j (x # zs) = x @ j @ str_join j zs"
  by (cases zs) auto

lemma str_join_Cons_Cons: "str_join j ((x # h) # rs) = x # str_join j (h # rs)"
  by (cases rs) auto

lemma str_join_split_on: "str_join [c] (split_on c s) = s"
proof (induction s)
  case Nil
  then show ?case by simp
next
  case (Cons x xs)
  obtain h rs where r: "split_on c xs = h # rs"
    using split_on_nonempty[of c xs] by (cases "split_on c xs") auto
  with Cons show ?case by (auto simp: str_join_Cons_Cons)
qed

lemma str_join_update_last:
  "ys \<noteq> [] \<Longrightarrow> str_join j (ys[length ys - 1 := last ys @ t]) = str_join j ys @ t"
proof (induction ys rule: list_nonempty_induct)
  case (single x)
  then show ?case by simp
next
  case (cons x xs)
  then obtain n where n: "length xs = Suc n" by (cases xs) auto
  have ne: "xs[n := last xs @ t] \<noteq> []" using cons.hyps by simp
  from cons n show ?case
    by (simp add: str_join_Cons[OF ne] str_join_Cons)
qed

lemma fix_time_format_index:
  assumes "startswith (strip line) ''INDEX ''" "sep \<noteq> []" "hd sep \<notin> set line"
  shows "fix_time_format sep line = line @ ''0'' @ sep"
proof -
  have "str_replace sep [] line = line"
    using assms(2,3) by (rule str_replace_absent)
  moreover have "str_join '':'' ((split_on (CHR '':'') line)
        [length (split_on (CHR '':'') line) - 1 := last (split_on (CHR '':'') line) @ (''0'' @ sep)])
      = str_join '':'' (split_on (CHR '':'') line) @ (''0'' @ sep)"
    by (rule str_join_update_last) (rule split_on_nonempty)
  ultimately show ?thesis
    using assms(1) by (simp add: fix_time_format_def Let_def str_join_split_on)
qed

lemma fix_time_format_other:
  "\<not> startswith (strip line) ''INDEX '' \<Longrightarrow> fix_time_format sep line = line"
  by (simp add: fix_time_format_def)

lemma linesep_facts:
  assumes "sep = [LF] \<or> sep = [CR, LF]"
  shows "sep \<noteq> []" and "is_linebreak (hd sep)"
  using assms by (auto simp: LF_def CR_def is_linebreak_def)

lemma splitlines_from_line:
  assumes "sep = [LF] \<or> sep = [CR, LF]"
  shows "\<forall>c\<in>set l. \<not> is_linebreak c \<Longrightarrow>
     splitlines_from cur (l @ sep @ rest) = (cur @ l) # splitlines_from [] rest"
proof (induction l arbitrary: cur)
  case Nil
  from assms show ?case
    by (auto simp: LF_def CR_def is_linebreak_def)
next
  case (Cons x l)
  then have x: "\<not> is_linebreak x" and l: "\<forall>c\<in>set l. \<not> is_linebreak c" by simp_all
  from x have "x \<noteq> CR" by (auto simp: is_linebreak_def CR_def)
  with x Cons.IH[OF l, of "cur @ [x]"] show ?case by simp
qed

lemma splitlines_from_plain:
  "\<forall>c\<in>set s. \<not> is_linebreak c \<Longrightarrow>
     splitlines_from cur s = (if cur @ s = [] then [] else [cur @ s])"
proof (induction s arbitrary: cur)
  case Nil
  then show ?case by simp
next
  case (Cons x s)
  then have x: "\<not> is_linebreak x" and s: "\<forall>c\<in>set s. \<not> is_linebreak c" by simp_all
  from x have "x \<noteq> CR" by (auto simp: is_linebreak_def CR_def)
  with x Cons.IH[OF s, of "cur @ [x]"] show ?case by simp
qed

lemma temp_cue_text_Cons: "temp_cue_text sep (x # xs) = x @ sep @ temp_cue_text sep xs"
  by (simp add: temp_cue_text_def)

lemma splitlines_temp_cue_text:
  assumes "sep = [LF] \<or> sep = [CR, LF]"
  shows "\<forall>l\<in>set ls. \<forall>c\<in>set l. \<not> is_linebreak c \<Longrightarrow>
     splitlines_from [] (temp_cue_text sep ls @ rest) = ls @ splitlines_from [] rest"
proof (induction ls)
  case Nil
  then show ?case by (simp add: temp_cue_text_def)
next
  case (Cons l ls)
  then have l: "\<forall>c\<in>set l. \<not> is_linebreak c" by simp
  have "temp_cue_text sep (l # ls) @ rest = l @ sep @ (temp_cue_text sep ls @ rest)"
    by (simp add: temp_cue_text_def)
  with splitlines_from_line[OF assms l, of "[]"] Cons show ?case by simp
qed

lemma splitlines_fixed_text:
  assumes sep: "sep = [LF] \<or> sep = [CR, LF]"
  shows "\<forall>l\<in>set ls. \<forall>c\<in>set l. \<not> is_linebreak c \<Longrightarrow>
     splitlines_from [] (temp_cue_text sep (map (fix_time_format sep) ls)) =
       concat (map (\<lambda>l. if startswith (strip l) ''INDEX '' then [l @ ''0'', []] else [l]) ls)"
proof (induction ls)
  case Nil
  then show ?case by (simp add: temp_cue_text_def)
next
  case (Cons l ls)
  then have l: "\<forall>c\<in>set l. \<not> is_linebreak c" by simp
  let ?rest = "temp_cue_text sep (map (fix_time_format sep) ls)"
  have t: "temp_cue_text sep (map (fix_time_format sep) (l # ls)) = fix_time_format sep l @ sep @ ?rest"
    by (simp add: temp_cue_text_def)
  have ih: "splitlines_from [] ?rest =
      concat (map (\<lambda>l. if startswith (strip l) ''INDEX '' then [l @ ''0'', []] else [l]) ls)"
    using Cons by simp
  show ?case
  proof (cases "startswith (strip l) ''INDEX ''")
    case True
    from l linesep_facts[OF sep] have "hd sep \<notin> set l" by auto
    with True linesep_facts(1)[OF sep] have f: "fix_time_format sep l = l @ ''0'' @ sep"
      by (simp add: fix_time_format_index)
    have l0: "\<forall>c\<in>set (l @ ''0''). \<not> is_linebreak c" using l by (auto simp: is_linebreak_def)
    have a: "splitlines_from [] ((l @ ''0'') @ sep @ ([] @ sep @ ?rest))
            = ([] @ (l @ ''0'')) # splitlines_from [] ([] @ sep @ ?rest)"
      using l0 by (rule splitlines_from_line[OF sep])
    have b: "splitlines_from [] ([] @ sep @ ?rest) = ([] @ []) # splitlines_from [] ?rest"
      by (rule splitlines_from_line[OF sep]) simp
    have "splitlines_from [] (temp_cue_text sep (map (fix_time_format sep) (l # ls)))
        = splitlines_from [] ((l @ ''0'') @ sep @ ([] @ sep @ ?rest))"
      by (simp add: temp_cue_text_Cons f)
    also note a
    also note b
    finally show ?thesis using True ih by simp
  next
    case False
    then have f: "fix_time_format sep l = l" by (rule fix_time_format_other)
    have "splitlines_from [] (temp_cue_text sep (map (fix_time_format sep) (l # ls)))
        = splitlines_from [] (l @ sep @ ?rest)"
      by (simp add: temp_cue_text_Cons f)
    also have "\<dots> = ([] @ l) # splitlines_from [] ?rest"
      using l by (rule splitlines_from_line[OF sep])
    finally show ?thesis using False ih by simp
  qed
qed

lemma add_if_present_eq:
  "add_if_present cmd (''--set-tag='' @ name) v = cmd @ tag_option name v"
  by (simp add: add_if_present_def tag_option_def split: option.splits)

lemma tag_single_file_ok:
  assumes "d < length (cue_disks a)" "i < length (titles_tags (cue_disks a ! d))"
  shows "tag_single_file f a d i = Inr (expected_tag_cmd a (titles_tags (cue_disks a ! d) ! i) f)"
proof -
  have e: "''--set-tag=ARTIST'' = ''--set-tag='' @ ''ARTIST''"
    "''--set-tag=ALBUM'' = ''--set-tag='' @ ''ALBUM''"
    "''--set-tag=TITLE'' = ''--set-tag='' @ ''TITLE''"
    "''--set-tag=DATE'' = ''--set-tag='' @ ''DATE''" by simp_all
  show ?thesis
    unfolding tag_single_file_def Let_def e add_if_present_eq expected_tag_cmd_def
    using assms by simp
qed

lemma tag_single_file_err:
  "d < length (cue_disks a) \<Longrightarrow> \<not> i < length (titles_tags (cue_disks a ! d)) \<Longrightarrow>
     tag_single_file f a d i = Inl IndexError"
  by (simp add: tag_single_file_def)

lemma tag_files_loop_result:
  assumes d: "d < length (cue_disks a)"
  shows "tag_files_loop a d (enumerate n fs) =
     (map (\<lambda>(i, f). Exec (expected_tag_cmd a (titles_tags (cue_disks a ! d) ! i) f))
        (take (length (titles_tags (cue_disks a ! d)) - n) (enumerate n fs)),
      if length fs \<le> length (titles_tags (cue_disks a ! d)) - n then Inr () else Inl IndexError)"
proof (induction fs arbitrary: n)
  case Nil
  then show ?case by simp
next
  case (Cons f fs)
  let ?m = "length (titles_tags (cue_disks a ! d))"
  show ?case
  proof (cases "n < ?m")
    case True
    then have s: "?m - n = Suc (?m - Suc n)" by simp
    from True show ?thesis
      by (simp add: tag_single_file_ok[OF d True] Cons.IH s)
  next
    case False
    then show ?thesis by (simp add: tag_single_file_err[OF d False])
  qed
qed

lemma tag_files_result:
  assumes d: "d < length (cue_disks a)"
  shows "tag_files dir listing a d =
     (map (\<lambda>i. Exec (expected_tag_cmd a (titles_tags (cue_disks a ! d) ! i) (tag_order dir listing ! i)))
        [0..<min (length (tag_order dir listing)) (length (titles_tags (cue_disks a ! d)))],
      if length (tag_order dir listing) \<le> length (titles_tags (cue_disks a ! d))
      then Inr () else Inl IndexError)"
proof -
  let ?fs = "tag_order dir listing" and ?m = "length (titles_tags (cue_disks a ! d))"
  have "take ?m (enumerate 0 ?fs) = map (\<lambda>i. (i, ?fs ! i)) [0..<min (length ?fs) ?m]"
    by (auto simp: list_eq_iff_nth_eq nth_enumerate_eq)
  then show ?thesis
    unfolding tag_files_def tag_files_loop_result[OF d]
    by (simp add: comp_def)
qed

lemma create_temp_cue_file_text:
  "create_temp_cue_file sep name ls =
     ([Write_file name (temp_cue_text sep ls)],
      if temp_cue_text sep ls = [] then Inl IOError_temp_cue_empty else Inr name)"
  by (simp add: create_temp_cue_file_def Let_def)






















lemma parse_lines_no_file:
  "parse_lines sep a ls = Inr a1 \<Longrightarrow> cue_disks a = [] \<Longrightarrow>
     \<forall>l\<in>set ls. \<not> startswith l ''FILE '' \<Longrightarrow> cue_disks a1 = []"
proof (induction ls arbitrary: a)
  case Nil
  then show ?case by simp
next
  case (Cons l ls)
  from Cons.prems(1) obtain a2 where s: "parse_line sep l a = Inr a2"
    and r: "parse_lines sep a2 ls = Inr a1"
    by (auto split: sum.splits)
  from s Cons.prems(2,3) have "append_line_to_header l a = Inr a2"
    by (simp add: parse_line_header)
  from append_line_to_header_fields(4)[OF this] Cons.prems(2) have "cue_disks a2 = []" by simp
  from Cons.IH[OF r this] Cons.prems(3) show ?case by simp
qed

lemma readTextFile_same_encoding_diverges:
  assumes "fallback_cue_encoding ar = Some ''utf-8''" "dec ''utf-8'' = UnicodeDecodeError"
  shows "readTextFile ar dec opened ''utf-8'' = None"
proof -
  have "\<not> (ar' = ar \<and> dec' = dec \<and> enc = ''utf-8'')"
    if "readTextFile ar' dec' opened' enc = Some y" for ar' dec' opened' enc y
  proof (rule readTextFile.raw_induct[where P = "\<lambda>a d opn e y. \<not> (a = ar \<and> d = dec \<and> e = ''utf-8'')",
          OF _ that])
    fix rd a d opn e y
    assume ih: "\<And>a d opn e y. rd a d opn e = Some y \<Longrightarrow> \<not> (a = ar \<and> d = dec \<and> e = ''utf-8'')"
      and step: "(case d e of
          Decoded txt \<Rightarrow> Some (opn @ [e], Inr (splitlines txt))
        | UnicodeDecodeError \<Rightarrow>
            if e \<noteq> ''utf-8'' then Some (opn @ [e], Inl IOError_fallback_failed)
            else if fallback_cue_encoding a = None \<or> fallback_cue_encoding a = Some []
              then Some (opn @ [e], Inl IOError_specify_fallback)
              else rd a d (opn @ [e]) (the (fallback_cue_encoding a))
        | UnknownEncoding \<Rightarrow> Some (opn @ [e], Inl LookupError)) = Some y"
    show "\<not> (a = ar \<and> d = dec \<and> e = ''utf-8'')"
    proof
      assume eq: "a = ar \<and> d = dec \<and> e = ''utf-8''"
      with step assms have "rd ar dec (opn @ [''utf-8'']) ''utf-8'' = Some y" by simp
      from ih[OF this] show False by simp
    qed
  qed
  then have "readTextFile ar dec opened ''utf-8'' \<noteq> Some y" for y by blast
  then show ?thesis by (metis not_Some_eq)
qed

lemma readTextFile_other_fallback:
  assumes "fallback_cue_encoding ar = Some fb" "fb \<noteq> []" "fb \<noteq> ''utf-8''"
    "dec ''utf-8'' = UnicodeDecodeError"
  shows "readTextFile ar dec [] ''utf-8'' =
     Some ([''utf-8'', fb],
           case dec fb of
             Decoded txt \<Rightarrow> Inr (splitlines txt)
           | UnicodeDecodeError \<Rightarrow> Inl IOError_fallback_failed
           | UnknownEncoding \<Rightarrow> Inl LookupError)"
  using assms
  by (subst readTextFile.simps, simp, subst readTextFile.simps) (simp split: read_result.splits)

lemma readTextFile_no_fallback:
  assumes "fallback_cue_encoding ar = None" "dec ''utf-8'' = UnicodeDecodeError"
  shows "readTextFile ar dec [] ''utf-8'' = Some ([''utf-8''], Inl IOError_specify_fallback)"
  using assms by (subst readTextFile.simps) simp








section \<open>The claims\<close>

subsection \<open>C1: the starting track number runs on across the discs of a sheet\<close>




subsection \<open>C2: a file count that differs from the title count\<close>

text \<open>
  C2 as stated fails: with fewer files than titles nothing is signalled. One file and
  two titles: the file is tagged with the first title and \<^verbatim>\<open>tag_files\<close> returns normally.
\<close>

theorem fewer_files_than_titles_counterexample:
  "length (tag_order ''/music/cueconvert_a'' [(''01. One.flac'', 1)]) = 1
   \<and> length (titles_tags (cue_disks small_album ! 0)) = 2
   \<and> tag_files ''/music/cueconvert_a'' [(''01. One.flac'', 1)] small_album 0 =
       ([Exec [''metaflac'', ''--preserve-modtime'', ''--set-tag=ALBUM=B'',
               ''--set-tag=TITLE=One'', ''--set-tag=DATE=2001'',
               ''/music/cueconvert_a/01. One.flac'']],
        Inr ())"
  by code_simp

text \<open>
  C2 as amended. The files handed to the tagger are those of the directory that match
  \<^verbatim>\<open>*.*\<close>, in the order of their modification times. For a disc of the album,
  \<^verbatim>\<open>tag_files\<close> raises (an \<^verbatim>\<open>IndexError\<close>) exactly when there are more such files than the
  disc has titles. In either case the tag writer is run once for every file at a
  position \<open>i\<close> below the number of titles and for no other file, in that order, on the
  file at position \<open>i\<close> with the title \<open>titles[i]\<close> (left out when it is empty): with as
  many files or fewer than titles every file is tagged by its position and nothing is
  signalled.
\<close>

theorem tagging_raises_only_with_surplus_files:
  assumes "d < length (cue_disks a)"
    and "files = map (\<lambda>(name, mtime). path_join dir name)
                   (sort_key snd (filter (\<lambda>(name, mtime). glob_any_dot_any name) listing))"
  shows "snd (tag_files dir listing a d) =
           (if length (titles_tags (cue_disks a ! d)) < length files
            then Inl IndexError else Inr ())
       \<and> length (fst (tag_files dir listing a d)) =
           min (length files) (length (titles_tags (cue_disks a ! d)))
       \<and> (\<forall>i<min (length files) (length (titles_tags (cue_disks a ! d))).
            fst (tag_files dir listing a d) ! i =
              Exec ([''metaflac'', ''--preserve-modtime'']
                    @ (case artist_tag a of None \<Rightarrow> []
                       | Some t \<Rightarrow> if t = [] then [] else [''--set-tag=ARTIST='' @ t])
                    @ (case album_tag a of None \<Rightarrow> []
                       | Some t \<Rightarrow> if t = [] then [] else [''--set-tag=ALBUM='' @ t])
                    @ (if titles_tags (cue_disks a ! d) ! i = [] then []
                       else [''--set-tag=TITLE='' @ titles_tags (cue_disks a ! d) ! i])
                    @ (case year_tag a of None \<Rightarrow> []
                       | Some t \<Rightarrow> if t = [] then [] else [''--set-tag=DATE='' @ t])
                    @ [files ! i]))"
proof -
  have f: "files = tag_order dir listing" by (simp add: assms(2) tag_order_def)
  show ?thesis
    unfolding tag_files_result[OF assms(1)] f
    by (auto simp: expected_tag_cmd_def tag_option_def split: option.splits)
qed

theorem tagging_raises_only_with_surplus_files_witness:
  "snd (tag_files ''/music/cueconvert_a''
          [(''03. x.flac'', 3), (''02. Two.flac'', 2), (''01. One.flac'', 1)] small_album 0)
     = Inl IndexError
   \<and> length (fst (tag_files ''/music/cueconvert_a''
          [(''03. x.flac'', 3), (''02. Two.flac'', 2), (''01. One.flac'', 1)] small_album 0)) = 2
   \<and> fst (tag_files ''/music/cueconvert_a''
          [(''03. x.flac'', 3), (''02. Two.flac'', 2), (''01. One.flac'', 1)] small_album 0) ! 1
     = Exec [''metaflac'', ''--preserve-modtime'', ''--set-tag=ALBUM=B'',
             ''--set-tag=TITLE=Two'', ''--set-tag=DATE=2001'',
             ''/music/cueconvert_a/02. Two.flac'']"
proof -
  let ?listing = "[(''03. x.flac'', 3), (''02. Two.flac'', 2), (''01. One.flac'', 1::nat)]"
  have d: "0 < length (cue_disks small_album)" by (simp add: small_album_def)
  have fs: "[''/music/cueconvert_a/01. One.flac'', ''/music/cueconvert_a/02. Two.flac'',
             ''/music/cueconvert_a/03. x.flac'']
      = map (\<lambda>(name, mtime). path_join ''/music/cueconvert_a'' name)
          (sort_key snd (filter (\<lambda>(name, mtime). glob_any_dot_any name) ?listing))"
    by code_simp
  have m: "titles_tags (cue_disks small_album ! 0) = [''One'', ''Two'']"
    "artist_tag small_album = None" "album_tag small_album = Some ''B''"
    "year_tag small_album = Some ''2001''"
    by (simp_all add: small_album_def)
  from tagging_raises_only_with_surplus_files[OF d fs]
  show ?thesis unfolding m by simp
qed

subsection \<open>C3: what the time-format correction does to an index line\<close>

text \<open>
  C3 as stated fails: the corrected line ends with the line separator, and a line that
  already has two frame digits is changed too.
\<close>

theorem two_frame_digits_counterexample:
  "fix_time_format [LF] ''INDEX 01 00:00:0'' = ''INDEX 01 00:00:00'' @ [LF]
   \<and> fix_time_format [LF] ''INDEX 01 00:00:0'' \<noteq> ''INDEX 01 00:00:00''
   \<and> fix_time_format [LF] ''INDEX 01 00:00:00'' = ''INDEX 01 00:00:000'' @ [LF]
   \<and> fix_time_format [LF] ''INDEX 01 00:00:00'' \<noteq> ''INDEX 01 00:00:00''"
  by code_simp

text \<open>
  C3 as amended. With the line separator of the platform (LF, or CR LF), the correction
  maps \<^verbatim>\<open>INDEX 01 00:00:0\<close> to \<^verbatim>\<open>INDEX 01 00:00:00\<close> followed by the separator, maps
  \<^verbatim>\<open>INDEX 01 00:00:00\<close> to \<^verbatim>\<open>INDEX 01 00:00:000\<close> followed by the separator, and changes
  every index line without a line terminator in the same way, whatever its frame
  digits; a line that is not an index line is returned as it is.
\<close>

theorem fix_time_format_always_appends:
  assumes "sep = [LF] \<or> sep = [CR, LF]" and "\<forall>c\<in>set line. \<not> is_linebreak c"
  shows "fix_time_format sep ''INDEX 01 00:00:0'' = ''INDEX 01 00:00:00'' @ sep
       \<and> fix_time_format sep ''INDEX 01 00:00:00'' = ''INDEX 01 00:00:000'' @ sep
       \<and> (startswith (strip line) ''INDEX '' \<longrightarrow>
            fix_time_format sep line = line @ ''0'' @ sep \<and> fix_time_format sep line \<noteq> line)
       \<and> (\<not> startswith (strip line) ''INDEX '' \<longrightarrow> fix_time_format sep line = line)"
proof -
  note s = linesep_facts[OF assms(1)]
  have i1: "startswith (strip ''INDEX 01 00:00:0'') ''INDEX ''" by code_simp
  have i2: "startswith (strip ''INDEX 01 00:00:00'') ''INDEX ''" by code_simp
  have h1: "hd sep \<notin> set ''INDEX 01 00:00:0''"
    using assms(1) by (auto simp: LF_def CR_def)
  have h2: "hd sep \<notin> set ''INDEX 01 00:00:00''"
    using assms(1) by (auto simp: LF_def CR_def)
  have h: "hd sep \<notin> set line" using assms(2) s(2) by auto
  have a: "fix_time_format sep ''INDEX 01 00:00:0'' = ''INDEX 01 00:00:00'' @ sep"
    using fix_time_format_index[OF i1 s(1) h1] by simp
  have b: "fix_time_format sep ''INDEX 01 00:00:00'' = ''INDEX 01 00:00:000'' @ sep"
    using fix_time_format_index[OF i2 s(1) h2] by simp
  have c: "fix_time_format sep line = line @ ''0'' @ sep \<and> fix_time_format sep line \<noteq> line"
    if "startswith (strip line) ''INDEX ''"
    using fix_time_format_index[OF that s(1) h] by simp
  from a b c fix_time_format_other show ?thesis by blast
qed

theorem fix_time_format_always_appends_witness:
  "fix_time_format [LF] ''    INDEX 02 03:15:42'' = ''    INDEX 02 03:15:420'' @ [LF]
   \<and> fix_time_format [LF] ''    TITLE \"t\"'' = ''    TITLE \"t\"''"
proof -
  have l: "\<forall>c\<in>set ''    INDEX 02 03:15:42''. \<not> is_linebreak c" by code_simp
  have i: "startswith (strip ''    INDEX 02 03:15:42'') ''INDEX ''" by code_simp
  have t: "\<forall>c\<in>set ''    TITLE \"t\"''. \<not> is_linebreak c" by code_simp
  have n: "\<not> startswith (strip ''    TITLE \"t\"'') ''INDEX ''" by code_simp
  from fix_time_format_always_appends[of "[LF]" "''    INDEX 02 03:15:42''"] l i
    fix_time_format_always_appends[of "[LF]" "''    TITLE \"t\"''"] t n
  show ?thesis by simp
qed

subsection \<open>C4: two header lines with the same tag\<close>

text \<open>
  C4 as stated fails: every matching header line assigns the tag again. After two TITLE
  lines the album title is the one of the second line.
\<close>

theorem first_header_tag_counterexample:
  "parse_lines [LF] CueAlbum_init [''TITLE \"First\"'', ''TITLE \"Second\"''] =
     Inr \<lparr>album_tag = Some ''Second'', artist_tag = None, year_tag = None, cue_disks = [],
          header = [''TITLE \"First\"'', ''TITLE \"Second\"'']\<rparr>"
  by code_simp

text \<open>
  C4 as amended. When a sheet parses, the album title, the artist and the year are
  those of the last TITLE, PERFORMER and REM DATE line before the first FILE line (and
  are absent when no such line is there); the header is the list of these lines.
\<close>

theorem header_tag_last_match_wins:
  assumes "parse_lines sep CueAlbum_init ls = Inr a"
  shows "album_tag a = last_match_tag ''TITLE '' (header_lines ls)
       \<and> artist_tag a = last_match_tag ''PERFORMER '' (header_lines ls)
       \<and> year_tag a = last_match_tag ''REM DATE '' (header_lines ls)
       \<and> header a = header_lines ls"
  using parse_lines_header_tags[OF assms]
  by (simp add: CueAlbum_init_def last_match_none)

theorem header_tag_last_match_wins_witness:
  "album_tag \<lparr>album_tag = Some ''Second'', artist_tag = None, year_tag = None, cue_disks = [],
          header = [''TITLE \"First\"'', ''TITLE \"Second\"'']\<rparr>
     = last_match_tag ''TITLE '' (header_lines [''TITLE \"First\"'', ''TITLE \"Second\"''])
   \<and> last_match_tag ''TITLE '' (header_lines [''TITLE \"First\"'', ''TITLE \"Second\"'']) = Some ''Second''"
proof -
  have e: "parse_lines [LF] CueAlbum_init [''TITLE \"First\"'', ''TITLE \"Second\"''] =
     Inr \<lparr>album_tag = Some ''Second'', artist_tag = None, year_tag = None, cue_disks = [],
          header = [''TITLE \"First\"'', ''TITLE \"Second\"'']\<rparr>"
    by code_simp
  from header_tag_last_match_wins[OF e] show ?thesis by simp
qed

subsection \<open>C5: the tag writer's command for each file\<close>

text \<open>
  C5 as stated fails in two places. A track with the empty title (a line
  \<^verbatim>\<open>TITLE ""\<close>) gets no TITLE argument at all; and with more files than titles the
  files past the last title get no tag-writer call.
\<close>

theorem tag_command_counterexample:
  "tag_files ''/music/cueconvert_a'' [(''01. .flac'', 1)] untitled_album 0 =
     ([Exec [''metaflac'', ''--preserve-modtime'', ''/music/cueconvert_a/01. .flac'']], Inr ())
   \<and> tag_files ''/music/cueconvert_a''
        [(''01. One.flac'', 1), (''02. Two.flac'', 2), (''03. x.flac'', 3)] small_album 0 =
     ([Exec [''metaflac'', ''--preserve-modtime'', ''--set-tag=ALBUM=B'',
             ''--set-tag=TITLE=One'', ''--set-tag=DATE=2001'',
             ''/music/cueconvert_a/01. One.flac''],
       Exec [''metaflac'', ''--preserve-modtime'', ''--set-tag=ALBUM=B'',
             ''--set-tag=TITLE=Two'', ''--set-tag=DATE=2001'',
             ''/music/cueconvert_a/02. Two.flac'']],
      Inl IndexError)"
  by code_simp

text \<open>
  C5 as amended. The files of the directory that match \<^verbatim>\<open>*.*\<close> are taken in the order
  of their modification times. For a disc of the album, the tag writer is run once for
  each file at a position \<open>i\<close> below the number of titles, in that order, and for no
  other file. Its arguments are \<^verbatim>\<open>--preserve-modtime\<close>, then ARTIST, ALBUM, TITLE and
  DATE, then the file; the title is \<open>titles[i]\<close>; each of the four is there exactly when
  its value is present and not empty, and is left out otherwise.
\<close>

theorem tag_commands_follow_titles:
  assumes "d < length (cue_disks a)"
  shows "fst (tag_files dir listing a d) =
           map (\<lambda>i. Exec ([''metaflac'', ''--preserve-modtime'']
                           @ tag_option ''ARTIST'' (artist_tag a)
                           @ tag_option ''ALBUM'' (album_tag a)
                           @ tag_option ''TITLE'' (Some (titles_tags (cue_disks a ! d) ! i))
                           @ tag_option ''DATE'' (year_tag a)
                           @ [tag_order dir listing ! i]))
             [0..<min (length (tag_order dir listing)) (length (titles_tags (cue_disks a ! d)))]
       \<and> (\<forall>name v. tag_option name v =
             (if v = None \<or> v = Some [] then [] else [''--set-tag='' @ name @ ''='' @ the v]))
       \<and> sorted (map snd (sort_key snd (filter (\<lambda>(name, mtime). glob_any_dot_any name) listing)))
       \<and> tag_order dir listing =
           map (\<lambda>(name, mtime). path_join dir name)
             (sort_key snd (filter (\<lambda>(name, mtime). glob_any_dot_any name) listing))"
proof -
  have "tag_option name v =
      (if v = None \<or> v = Some [] then [] else [''--set-tag='' @ name @ ''='' @ the v])" for name v
    by (cases v) (simp_all add: tag_option_def)
  then show ?thesis
    unfolding tag_files_result[OF assms] by (simp add: expected_tag_cmd_def tag_order_def)
qed

text \<open>The album without a performer line: track index 1 gets TITLE=Two and no ARTIST.\<close>

theorem tag_commands_follow_titles_witness:
  "fst (tag_files ''/music/cueconvert_a'' [(''02. Two.flac'', 2), (''01. One.flac'', 1)] small_album 0) ! 1
     = Exec [''metaflac'', ''--preserve-modtime'', ''--set-tag=ALBUM=B'',
             ''--set-tag=TITLE=Two'', ''--set-tag=DATE=2001'',
             ''/music/cueconvert_a/02. Two.flac'']"
proof -
  have d: "0 < length (cue_disks small_album)" by (simp add: small_album_def)
  have n: "min (length (tag_order ''/music/cueconvert_a'' [(''02. Two.flac'', 2), (''01. One.flac'', 1)]))
             (length (titles_tags (cue_disks small_album ! 0))) = 2"
    by code_simp
  have "fst (tag_files ''/music/cueconvert_a'' [(''02. Two.flac'', 2), (''01. One.flac'', 1)] small_album 0) ! 1
      = Exec ([''metaflac'', ''--preserve-modtime'']
                @ tag_option ''ARTIST'' (artist_tag small_album)
                @ tag_option ''ALBUM'' (album_tag small_album)
                @ tag_option ''TITLE'' (Some (titles_tags (cue_disks small_album ! 0) ! 1))
                @ tag_option ''DATE'' (year_tag small_album)
                @ [tag_order ''/music/cueconvert_a'' [(''02. Two.flac'', 2), (''01. One.flac'', 1)] ! 1])"
    using tag_commands_follow_titles[OF d, of "''/music/cueconvert_a''"
        "[(''02. Two.flac'', 2), (''01. One.flac'', 1)]"]
    unfolding n by (simp del: upt_Suc add: upt_rec[of 0] upt_rec[of 1])
  also have "\<dots> = Exec [''metaflac'', ''--preserve-modtime'', ''--set-tag=ALBUM=B'',
             ''--set-tag=TITLE=Two'', ''--set-tag=DATE=2001'',
             ''/music/cueconvert_a/02. Two.flac'']"
    by code_simp
  finally show ?thesis .
qed

subsection \<open>C6: removal of the temporary sheet and the temporary directory\<close>



subsection \<open>C7: the retry with the fallback encoding\<close>

text \<open>
  C7 fails on the code when the fallback encoding is configured as \<^verbatim>\<open>utf-8\<close> itself:
  the retry is told from the first attempt by the name of the encoding alone, so the
  retry fails like the first attempt and is followed by another retry, without end.
  The call returns neither lines nor an exception.
\<close>

theorem fallback_utf8_retries_forever:
  assumes "fallback_cue_encoding ar = Some ''utf-8''" and "dec ''utf-8'' = UnicodeDecodeError"
  shows "readTextFile ar dec opened ''utf-8'' = None \<and> parse_cue_file ar sep dec = None"
  using assms by (simp add: parse_cue_file_def readTextFile_same_encoding_diverges)

theorem fallback_utf8_retries_forever_witness:
  "readTextFile fallback_utf8_args undecodable [] ''utf-8'' = None
   \<and> parse_cue_file fallback_utf8_args [LF] undecodable = None"
proof -
  have f: "fallback_cue_encoding fallback_utf8_args = Some ''utf-8''"
    by (simp add: fallback_utf8_args_def)
  have u: "undecodable ''utf-8'' = UnicodeDecodeError"
    by (simp add: undecodable_def)
  from fallback_utf8_retries_forever[of fallback_utf8_args undecodable, OF f u]
  show ?thesis by blast
qed

subsection \<open>C8: a sheet without a FILE line\<close>

text \<open>
  C8 as stated fails in its second half: for an album without discs the loop of
  \<^verbatim>\<open>convert\<close> has nothing to run over, and the call returns normally without an event.
\<close>

theorem no_file_line_counterexample:
  "parse_lines [LF] CueAlbum_init [''TITLE \"B\"''] =
     Inr \<lparr>album_tag = Some ''B'', artist_tag = None, year_tag = None, cue_disks = [],
          header = [''TITLE \"B\"'']\<rparr>
   \<and> convert example_args [LF] example_envs
       (example_conv \<lparr>album_tag = Some ''B'', artist_tag = None, year_tag = None, cue_disks = [],
          header = [''TITLE \"B\"'']\<rparr>) = ([], Inr ())"
  by code_simp

text \<open>
  C8 as amended. When a sheet without a FILE line parses, the album has no disc, and
  \<^verbatim>\<open>convert\<close> on it does nothing and returns normally: no error is signalled.
\<close>

theorem sheet_without_file_line_converts_to_nothing:
  assumes "\<forall>l\<in>set ls. \<not> startswith l ''FILE ''"
    and "parse_lines sep CueAlbum_init ls = Inr a"
  shows "cue_disks a = [] \<and> convert ar sep' envs (conv\<lparr>cue_album := a\<rparr>) = ([], Inr ())"
proof -
  from parse_lines_no_file[OF assms(2) _ assms(1)] have "cue_disks a = []"
    by (simp add: CueAlbum_init_def)
  then show ?thesis by (simp add: convert_def)
qed

theorem sheet_without_file_line_converts_to_nothing_witness:
  "cue_disks \<lparr>album_tag = Some ''B'', artist_tag = None, year_tag = None, cue_disks = [],
          header = [''TITLE \"B\"'']\<rparr> = []
   \<and> convert example_args [LF] example_envs
       ((example_conv example_album)\<lparr>cue_album :=
          \<lparr>album_tag = Some ''B'', artist_tag = None, year_tag = None, cue_disks = [],
           header = [''TITLE \"B\"'']\<rparr>\<rparr>) = ([], Inr ())"
proof -
  have f: "\<forall>l\<in>set [''TITLE \"B\"'']. \<not> startswith l ''FILE ''" by code_simp
  have e: "parse_lines [LF] CueAlbum_init [''TITLE \"B\"''] =
     Inr \<lparr>album_tag = Some ''B'', artist_tag = None, year_tag = None, cue_disks = [],
          header = [''TITLE \"B\"'']\<rparr>"
    by code_simp
  from sheet_without_file_line_converts_to_nothing[OF f e] show ?thesis by blast
qed

subsection \<open>C9: the blank line after every corrected index line\<close>

text \<open>
  C9. With the line separator of the platform (LF, or CR LF) and lines without a line
  terminator, the correction returns an index line with \<^verbatim>\<open>0\<close> and the separator
  appended and any other line as it is. The temporary sheet is written from the header
  lines and the corrected lines of the disc, each followed by the separator; read back
  line by line, it shows every header line and every other line of the disc once, and
  every index line with its added \<^verbatim>\<open>0\<close>, followed by an empty line.
\<close>

theorem index_lines_get_zero_and_blank_line:
  assumes "sep = [LF] \<or> sep = [CR, LF]"
    and "\<forall>l\<in>set (hdr @ ls). \<forall>c\<in>set l. \<not> is_linebreak c"
  shows "(\<forall>l\<in>set ls. fix_time_format sep l =
            (if startswith (strip l) ''INDEX '' then l @ ''0'' @ sep else l))
       \<and> fst (create_temp_cue_file sep name (hdr @ map (fix_time_format sep) ls)) =
           [Write_file name (temp_cue_text sep (hdr @ map (fix_time_format sep) ls))]
       \<and> splitlines (temp_cue_text sep (hdr @ map (fix_time_format sep) ls)) =
           hdr @ concat (map (\<lambda>l. if startswith (strip l) ''INDEX '' then [l @ ''0'', []] else [l]) ls)"
proof -
  note s = linesep_facts[OF assms(1)]
  have h: "\<forall>l\<in>set hdr. \<forall>c\<in>set l. \<not> is_linebreak c"
    and b: "\<forall>l\<in>set ls. \<forall>c\<in>set l. \<not> is_linebreak c"
    using assms(2) by auto
  have 1: "\<forall>l\<in>set ls. fix_time_format sep l =
            (if startswith (strip l) ''INDEX '' then l @ ''0'' @ sep else l)"
  proof
    fix l assume "l \<in> set ls"
    with b s(2) have "hd sep \<notin> set l" by auto
    then show "fix_time_format sep l =
            (if startswith (strip l) ''INDEX '' then l @ ''0'' @ sep else l)"
      using fix_time_format_index[OF _ s(1)] fix_time_format_other by simp
  qed
  have "temp_cue_text sep (hdr @ map (fix_time_format sep) ls)
      = temp_cue_text sep hdr @ temp_cue_text sep (map (fix_time_format sep) ls)"
    by (simp add: temp_cue_text_def)
  then have 3: "splitlines (temp_cue_text sep (hdr @ map (fix_time_format sep) ls)) =
           hdr @ concat (map (\<lambda>l. if startswith (strip l) ''INDEX '' then [l @ ''0'', []] else [l]) ls)"
    using splitlines_temp_cue_text[OF assms(1) h] splitlines_fixed_text[OF assms(1) b]
    by (simp add: splitlines_def)
  from 1 3 show ?thesis by (simp add: create_temp_cue_file_text)
qed

theorem index_lines_get_zero_and_blank_line_witness:
  "splitlines (temp_cue_text [LF]
      ([''TITLE \"B\"''] @ map (fix_time_format [LF]) [''FILE \"a.wav\" WAVE'', ''    INDEX 01 00:00:00''])) =
     [''TITLE \"B\"'', ''FILE \"a.wav\" WAVE'', ''    INDEX 01 00:00:000'', []]"
proof -
  have l: "\<forall>l\<in>set ([''TITLE \"B\"''] @ [''FILE \"a.wav\" WAVE'', ''    INDEX 01 00:00:00'']).
      \<forall>c\<in>set l. \<not> is_linebreak c"
    by code_simp
  have "splitlines (temp_cue_text [LF]
      ([''TITLE \"B\"''] @ map (fix_time_format [LF]) [''FILE \"a.wav\" WAVE'', ''    INDEX 01 00:00:00''])) =
     [''TITLE \"B\"''] @ concat (map (\<lambda>l. if startswith (strip l) ''INDEX '' then [l @ ''0'', []] else [l])
        [''FILE \"a.wav\" WAVE'', ''    INDEX 01 00:00:00''])"
    using index_lines_get_zero_and_blank_line[of "[LF]" "[''TITLE \"B\"'']"
        "[''FILE \"a.wav\" WAVE'', ''    INDEX 01 00:00:00'']", OF _ l]
    by blast
  also have "\<dots> = [''TITLE \"B\"'', ''FILE \"a.wav\" WAVE'', ''    INDEX 01 00:00:000'', []]"
    by code_simp
  finally show ?thesis .
qed

subsection \<open>C10: a tag keyword with nothing after it\<close>

text \<open>
  C10. A line that is \<^verbatim>\<open>TITLE \<close> followed by blanks and tabs only makes the parser raise
  \<^verbatim>\<open>IndexError\<close>, in the header and inside a disc, where the keyword may be indented;
  so do \<^verbatim>\<open>PERFORMER \<close> and \<^verbatim>\<open>REM DATE \<close> in the header. The exception leaves the loop
  over the lines and the call that reads and parses the file.
\<close>

theorem tag_without_value_raises_IndexError:
  assumes "set ws \<subseteq> {CHR 0x20, TAB}" and "set ind \<subseteq> {CHR 0x20, TAB}"
  shows "parse_line sep (''TITLE '' @ ws) a = Inl IndexError
       \<and> (cue_disks a \<noteq> [] \<longrightarrow> parse_line sep (ind @ ''TITLE '' @ ws) a = Inl IndexError)
       \<and> (cue_disks a = [] \<longrightarrow> parse_line sep (''PERFORMER '' @ ws) a = Inl IndexError
                                \<and> parse_line sep (''REM DATE '' @ ws) a = Inl IndexError)
       \<and> parse_lines sep a ((''TITLE '' @ ws) # rest) = Inl IndexError
       \<and> parse_cue_file ar sep (\<lambda>e. Decoded (''TITLE '' @ ws)) = Some (Inl IndexError)"
proof -
  have e: "set [] \<subseteq> {CHR 0x20, TAB}" by simp
  have 1: "parse_line sep (''TITLE '' @ ws) b = Inl IndexError" for b
    using parse_line_title_blank[OF e assms(1), of b "''TITLE '' @ ws" sep] by simp
  have 2: "parse_line sep (ind @ ''TITLE '' @ ws) a = Inl IndexError" if "cue_disks a \<noteq> []"
    using parse_line_title_blank[OF assms(2,1) _ refl] that by simp
  have np: "\<not> startswith (''PERFORMER '' @ ws) ''FILE ''"
    and nd: "\<not> startswith (''REM DATE '' @ ws) ''FILE ''"
    by (simp_all add: startswith_def)
  have 3: "parse_line sep (''PERFORMER '' @ ws) a = Inl IndexError"
    "parse_line sep (''REM DATE '' @ ws) a = Inl IndexError" if "cue_disks a = []"
    using header_blank(2,3)[OF assms(1) refl]
    by (simp_all only: parse_line_header[OF that np] parse_line_header[OF that nd])
  have 4: "parse_lines sep b ((''TITLE '' @ ws) # r) = Inl IndexError" for b r
    using 1[of b] by (simp del: append_Cons)
  have "\<forall>c\<in>set (''TITLE '' @ ws). \<not> is_linebreak c"
    using assms(1) by (auto simp: is_linebreak_def TAB_def)
  then have "splitlines (''TITLE '' @ ws) = [''TITLE '' @ ws]"
    by (simp add: splitlines_def splitlines_from_plain del: append_Cons)
  then have 5: "parse_cue_file ar sep (\<lambda>e. Decoded (''TITLE '' @ ws)) = Some (Inl IndexError)"
    using 4[of CueAlbum_init "[]"]
    by (simp add: parse_cue_file_def readTextFile.simps del: append_Cons)
  from 1 2 3 4 5 show ?thesis by blast
qed

theorem tag_without_value_raises_IndexError_witness:
  "parse_lines [LF] CueAlbum_init [''TITLE ''] = Inl IndexError
   \<and> parse_line [LF] ''    TITLE  ''
       (CueAlbum_init\<lparr>cue_disks := [CueDisc_init\<lparr>music_file_name := Some ''a.wav''\<rparr>]\<rparr>)
       = Inl IndexError"
proof -
  have w: "set '' '' \<subseteq> {CHR 0x20, TAB}" and w0: "set [] \<subseteq> {CHR 0x20, TAB}"
    and i: "set ''    '' \<subseteq> {CHR 0x20, TAB}" by simp_all
  have d: "cue_disks (CueAlbum_init\<lparr>cue_disks := [CueDisc_init\<lparr>music_file_name := Some ''a.wav''\<rparr>]\<rparr>) \<noteq> []"
    by simp
  from tag_without_value_raises_IndexError[OF w0 i, of "[LF]" CueAlbum_init "[]"]
    tag_without_value_raises_IndexError[OF w i, of "[LF]"
      "CueAlbum_init\<lparr>cue_disks := [CueDisc_init\<lparr>music_file_name := Some ''a.wav''\<rparr>]\<rparr>"] d
  show ?thesis by simp
qed

end
